theory Spec2Isabelle
  imports Main
begin

section \<open>JavaScript values, errors and promises\<close>

text \<open>
  The repository is a single class, \<open>Blockchain\<close> (src/blockchain.js), whose methods all
  return promises.  A decoded block payload is a JavaScript value; only the shapes that
  \<open>JSON.parse\<close> can produce, and \<open>undefined\<close>, are needed.
\<close>

datatype jsval =
    JUndefined
  | JNull
  | JBool bool
  | JNum int
  | JStr string
  | JObj "(string \<times> jsval) list"

text \<open>
  What a method can throw: the \<open>TypeError\<close> of reading a property of \<open>null\<close> or
  \<open>undefined\<close>; \<open>new Error(msg)\<close>; the \<open>Error("Blockchain is invalid")\<close> of
  \<open>_addBlock\<close>, which carries the list \<open>errorLog\<close>; and an error that a library
  (signature verifier, payload decoder) throws, with its message.
\<close>

datatype js_error =
    TypeError
  | Error string
  | BlockchainInvalid "string list"
  | Thrown string

text \<open>
  The state in which a promise ends up.  \<open>Pending\<close> is a promise that is never settled:
  neither \<open>resolve\<close> nor \<open>reject\<close> is ever called.
\<close>

datatype 'a promise = Resolved 'a | Rejected js_error | Pending

section \<open>Numbers and strings\<close>

text \<open>
  A number that may be \<open>NaN\<close> is an \<open>int option\<close>, with \<open>None\<close> for \<open>NaN\<close>.  The
  numbers of the program are clock readings and what \<open>parseInt\<close> returns; they are kept
  as unbounded integers.  (A double represents every integer below \<open>2^53\<close> exactly, which
  covers every clock reading; a longer digit string of a message is rounded by
  \<open>parseInt\<close> to a double of the same sign and of magnitude at least \<open>2^53\<close>, so the
  comparison with a clock reading agrees with the comparison of the exact integers.)
  Strings are byte strings.
\<close>

definition digit_char :: "nat \<Rightarrow> char" where
  "digit_char d = ''0123456789'' ! d"

function digits :: "nat \<Rightarrow> string" where
  "digits n = (if n < 10 then [digit_char n] else digits (n div 10) @ [digit_char (n mod 10)])"
  by pat_completeness auto
termination
  by (relation "measure (\<lambda>n. n)") auto

declare digits.simps [simp del]

text \<open>\<open>Number.prototype.toString()\<close> on an integer (of magnitude below \<open>10^21\<close>).\<close>

definition toString :: "int \<Rightarrow> string" where
  "toString i = (if i < 0 then CHR ''-'' # digits (nat (- i)) else digits (nat i))"

text \<open>
  \<open>s.slice(0, -k)\<close>: the string without its last \<open>k\<close> characters, empty when
  the string has at most \<open>k\<close> characters.
\<close>

definition slice_0_neg :: "string \<Rightarrow> nat \<Rightarrow> string" where
  "slice_0_neg s k = take (length s - k) s"

text \<open>\<open>s.split(':')\<close>: always at least one segment.\<close>

fun split_colon :: "string \<Rightarrow> string list" where
  "split_colon [] = [[]]"
| "split_colon (c # cs) =
     (if c = CHR '':'' then [] # split_colon cs
      else (case split_colon cs of
              [] \<Rightarrow> [[c]]
            | w # ws \<Rightarrow> (c # w) # ws))"

text \<open>
  \<open>parseInt(s)\<close> with no radix: leading white space is skipped, one sign is read, a
  prefix \<open>0x\<close> or \<open>0X\<close> selects radix 16, and the longest prefix of digits of the
  radix is the value; with no digit the result is \<open>NaN\<close>.
\<close>

definition is_white_space :: "char \<Rightarrow> bool" where
  "is_white_space c = (c \<in> set [CHR 0x09, CHR 0x0A, CHR 0x0B, CHR 0x0C, CHR 0x0D, CHR '' ''])"

definition digit_value :: "char \<Rightarrow> nat option" where
  "digit_value c = map_of
     [(CHR ''0'', 0), (CHR ''1'', 1), (CHR ''2'', 2), (CHR ''3'', 3), (CHR ''4'', 4),
      (CHR ''5'', 5), (CHR ''6'', 6), (CHR ''7'', 7), (CHR ''8'', 8), (CHR ''9'', 9),
      (CHR ''a'', 10), (CHR ''b'', 11), (CHR ''c'', 12), (CHR ''d'', 13), (CHR ''e'', 14),
      (CHR ''f'', 15),
      (CHR ''A'', 10), (CHR ''B'', 11), (CHR ''C'', 12), (CHR ''D'', 13), (CHR ''E'', 14),
      (CHR ''F'', 15)] c"

definition is_digit :: "nat \<Rightarrow> char \<Rightarrow> bool" where
  "is_digit radix c = (case digit_value c of None \<Rightarrow> False | Some v \<Rightarrow> v < radix)"

definition number_of_digits :: "nat \<Rightarrow> string \<Rightarrow> nat" where
  "number_of_digits radix ds =
     foldl (\<lambda>acc c. acc * radix + (case digit_value c of None \<Rightarrow> 0 | Some v \<Rightarrow> v)) 0 ds"

definition parseInt_radix :: "int \<Rightarrow> nat \<Rightarrow> string \<Rightarrow> int option" where
  "parseInt_radix sign radix s =
     (let z = takeWhile (is_digit radix) s
      in if z = [] then None else Some (sign * int (number_of_digits radix z)))"

definition parseInt_unsigned :: "int \<Rightarrow> string \<Rightarrow> int option" where
  "parseInt_unsigned sign s =
     (if take 2 s = ''0x'' \<or> take 2 s = ''0X'' then parseInt_radix sign 16 (drop 2 s)
      else parseInt_radix sign 10 s)"

definition parseInt :: "string \<Rightarrow> int option" where
  "parseInt s =
     (case dropWhile is_white_space s of
        [] \<Rightarrow> None
      | c # cs \<Rightarrow>
          if c = CHR ''-'' then parseInt_unsigned (- 1) cs
          else if c = CHR ''+'' then parseInt_unsigned 1 cs
          else parseInt_unsigned 1 (c # cs))"

text \<open>\<open>!!!x\<close> on a number: true for \<open>NaN\<close> and for zero.\<close>

definition falsy :: "int option \<Rightarrow> bool" where
  "falsy x = (case x of None \<Rightarrow> True | Some v \<Rightarrow> v = 0)"

text \<open>\<open>x - k\<close> and \<open>x > y\<close> on numbers: \<open>NaN\<close> propagates, and compares false.\<close>

definition js_minus :: "int option \<Rightarrow> int \<Rightarrow> int option" where
  "js_minus x k = (case x of None \<Rightarrow> None | Some v \<Rightarrow> Some (v - k))"

definition js_greater :: "int option \<Rightarrow> int option \<Rightarrow> bool" where
  "js_greater x y =
     (case x of None \<Rightarrow> False
      | Some a \<Rightarrow> (case y of None \<Rightarrow> False | Some b \<Rightarrow> b < a))"

text \<open>
  The clock at second resolution, as every reader of the clock in the source computes it:
  \<open>new Date().getTime().toString().slice(0, -3)\<close>, where the argument is the reading of
  \<open>getTime()\<close> in milliseconds.
\<close>

definition time_string :: "int \<Rightarrow> string" where
  "time_string now = slice_0_neg (toString now) 3"

section \<open>Blocks\<close>

text \<open>
  The class \<open>Block\<close> lives in block.js, which is not among the sources; blockchain.js
  reads and writes the five fields below.  A field that is \<open>null\<close> or not yet set is
  \<open>None\<close>.  \<open>_addBlock\<close> stores a string in \<open>time\<close>.
\<close>

record block =
  hash :: "string option"
  height :: "int option"
  body :: string
  time :: "string option"
  previousBlockHash :: "string option"

text \<open>
  Modelled from the spec: the constructor of \<open>Block\<close> (block.js is missing).  Spec 4.1:
  "construct(payload): stores payload in encoded form; height/time/previous_hash/hash are
  left unset until appended."  The payload codec is a collaborator, the parameter
  \<open>encode\<close>.
\<close>

definition Block :: "(jsval \<Rightarrow> string) \<Rightarrow> jsval \<Rightarrow> block" where
  "Block encode data =
     \<lparr>hash = None, height = None, body = encode data, time = None, previousBlockHash = None\<rparr>"

text \<open>
  Throughout, the parameter \<open>H\<close> is the digest of the source's line 82,
  \<open>SHA256(JSON.stringify(block)).toString()\<close>, as a function of the block it is applied
  to, the current value of the field \<open>hash\<close> included.

  Modelled from the spec: \<open>Block.validate\<close> (block.js is missing).  Spec 4.1:
  "validate() -> bool: recomputes the hash over the block's current (height, time,
  previous_hash, payload) and returns whether it equals the stored hash."  The input of
  the digest excludes the stored hash (spec 3), which is how \<open>_addBlock\<close> computes it
  for a block that comes from the constructor.
\<close>

definition validate :: "(block \<Rightarrow> string) \<Rightarrow> block \<Rightarrow> bool" where
  "validate H b = (hash b = Some (H (b\<lparr>hash := None\<rparr>)))"

text \<open>
  Modelled from the spec: \<open>Block.getBData\<close> (block.js is missing).  Spec 4.1:
  "decode_payload(): decodes the stored encoded payload back to its structured form;
  fails with a DecodeError if the stored bytes are not valid encoded data."  The decoder
  is the parameter \<open>decode\<close>, which returns the error it fails with.
\<close>

definition getBData :: "(string \<Rightarrow> js_error + jsval) \<Rightarrow> block \<Rightarrow> js_error + jsval" where
  "getBData decode b = decode (body b)"

text \<open>A template literal prints a \<open>null\<close> field as the word null.\<close>

definition show_field :: "string option \<Rightarrow> string" where
  "show_field h = (case h of None \<Rightarrow> ''null'' | Some s \<Rightarrow> s)"

section \<open>The chain store\<close>

text \<open>
  The object state: \<open>this.chain\<close> and \<open>this.height\<close>.  The counter is called
  \<open>chainHeight\<close> here, since \<open>height\<close> is the field of a block.
\<close>

record blockchain =
  chain :: "block list"
  chainHeight :: int

definition getChainHeight :: "blockchain \<Rightarrow> int promise" where
  "getChainHeight self = Resolved (chainHeight self)"

text \<open>
  \<open>getBlockByHash\<close>: \<open>self.chain.filter(b => b.hash === hash)[0] || null\<close>, the first
  block with that hash, \<open>None\<close> for \<open>null\<close>.
\<close>

definition getBlockByHash :: "blockchain \<Rightarrow> string option \<Rightarrow> block option" where
  "getBlockByHash self h = find (\<lambda>b. hash b = h) (chain self)"

definition getBlockByHeight :: "blockchain \<Rightarrow> int \<Rightarrow> block option" where
  "getBlockByHeight self h = find (\<lambda>p. height p = Some h) (chain self)"

subsection \<open>validateChain\<close>

definition invalid_entry :: "block \<Rightarrow> string" where
  "invalid_entry b = ''Block with hash '' @ show_field (hash b) @ '' is invalid''"

definition broken_entry :: "block \<Rightarrow> string" where
  "broken_entry b = ''Blockchain is broken. Last seen block with hash. '' @ show_field (hash b)"

text \<open>
  The \<open>while (block)\<close> loop of lines 244 to 255.  The loop variable is a block or
  \<open>null\<close>.  The result is \<open>None\<close> when the loop runs forever, \<open>Some (Inl TypeError)\<close>
  when \<open>block.height\<close> is read on \<open>null\<close> (line 252), and otherwise the error log and
  the loop variable on leaving the loop.
\<close>

partial_function (option) validateLoop ::
  "(block \<Rightarrow> string) \<Rightarrow> blockchain \<Rightarrow> block option \<Rightarrow> string list
     \<Rightarrow> (js_error + string list \<times> block option) option" where
  "validateLoop H self blk errorLog =
     (case blk of
        None \<Rightarrow> Some (Inr (errorLog, None))
      | Some b \<Rightarrow>
          (let errorLog' = (if \<not> validate H b then errorLog @ [invalid_entry b] else errorLog);
               blk' = getBlockByHash self (previousBlockHash b)
           in case blk' of
                None \<Rightarrow> Some (Inl TypeError)
              | Some b' \<Rightarrow>
                  if height b' = Some 0 then Some (Inr (errorLog', blk'))
                  else validateLoop H self blk' errorLog'))"

declare validateLoop.simps [code]

text \<open>
  \<open>validateChain\<close>, lines 236 to 265.  The executor of the promise is an async function: a
  \<open>TypeError\<close> thrown in it rejects the executor's own promise, which nobody holds, and
  the promise that \<open>validateChain\<close> returned is never settled.  So the three results are:
  \<open>None\<close>, the loop runs forever; \<open>Some (Inl TypeError)\<close>, the executor threw and the
  promise stays pending; \<open>Some (Inr errorLog)\<close>, the promise is resolved with the log.
\<close>

definition validateChain ::
  "(block \<Rightarrow> string) \<Rightarrow> blockchain \<Rightarrow> (js_error + string list) option" where
  "validateChain H self =
     (if 1 < length (chain self) then
        (case validateLoop H self (Some (chain self ! (length (chain self) - 1))) [] of
           None \<Rightarrow> None
         | Some (Inl e) \<Rightarrow> Some (Inl e)
         | Some (Inr (errorLog, blk)) \<Rightarrow>
             (case blk of
                None \<Rightarrow> Some (Inl TypeError)
              | Some b \<Rightarrow>
                  Some (Inr (if height b \<noteq> Some 0 then errorLog @ [broken_entry b]
                             else errorLog))))
      else Some (Inr []))"

subsection \<open>_addBlock\<close>

text \<open>
  \<open>_addBlock\<close> (lines 66 to 106; an identifier cannot begin with an underscore here).
  Both call sites of the source, \<open>initializeChain\<close> and \<open>submitStar\<close>, pass a block
  that the constructor has just made, so the object that is modified and pushed is never
  one that the chain already holds: the block is passed by value.  \<open>now\<close> is the clock
  reading of line 81.

  Lines 70 to 88 run without interruption.  \<open>self.chain[lastBlockHeight]\<close> is
  \<open>undefined\<close> outside the array, and reading its \<open>hash\<close> throws; the \<open>catch\<close>
  rejects with the error, before anything is stored.
\<close>

definition pushBlock ::
  "(block \<Rightarrow> string) \<Rightarrow> int \<Rightarrow> blockchain \<Rightarrow> block \<Rightarrow> js_error + blockchain \<times> block" where
  "pushBlock H now self blk =
     (let lastBlockHeight = chainHeight self;
          nextHeight = lastBlockHeight + 1
      in if 0 < nextHeight \<and> \<not> nat lastBlockHeight < length (chain self) then Inl TypeError
         else
           let blk1 = (if 0 < nextHeight
                       then blk\<lparr>previousBlockHash := hash (chain self ! nat lastBlockHeight)\<rparr>
                       else blk);
               blk2 = blk1\<lparr>height := Some nextHeight\<rparr>;
               blk3 = blk2\<lparr>time := Some (time_string now)\<rparr>;
               blk4 = blk3\<lparr>hash := Some (H blk3)\<rparr>
           in Inr (self\<lparr>chain := chain self @ [blk4], chainHeight := nextHeight\<rparr>, blk4))"

text \<open>
  Lines 90 to 104: the chain is validated after the push.  The result is the state of the
  store after the call and the state of the returned promise.  When \<open>validateChain\<close>
  never resolves, because its loop runs forever or its executor threw, the \<open>await\<close> of
  line 91 never returns and the promise of \<open>_addBlock\<close> stays pending.
\<close>

definition addBlock ::
  "(block \<Rightarrow> string) \<Rightarrow> int \<Rightarrow> blockchain \<Rightarrow> block \<Rightarrow> blockchain \<times> block promise" where
  "addBlock H now self blk =
     (case pushBlock H now self blk of
        Inl e \<Rightarrow> (self, Rejected e)
      | Inr (self', blk') \<Rightarrow>
          (case validateChain H self' of
             None \<Rightarrow> (self', Pending)
           | Some (Inl e) \<Rightarrow> (self', Pending)
           | Some (Inr errorLog) \<Rightarrow>
               if length errorLog = 0 then (self', Resolved blk')
               else (self', Rejected (BlockchainInvalid errorLog))))"

subsection \<open>Construction\<close>

definition genesis_data :: jsval where
  "genesis_data = JObj [(''data'', JStr ''Genesis Block'')]"

text \<open>\<open>initializeChain\<close> is an async function: a rejection of \<open>_addBlock\<close> rejects it.\<close>

definition initializeChain ::
  "(block \<Rightarrow> string) \<Rightarrow> (jsval \<Rightarrow> string) \<Rightarrow> int \<Rightarrow> blockchain \<Rightarrow> blockchain \<times> unit promise" where
  "initializeChain H encode now self =
     (if chainHeight self = - 1 then
        (case addBlock H now self (Block encode genesis_data) of
           (self', Resolved _) \<Rightarrow> (self', Resolved ())
         | (self', Rejected e) \<Rightarrow> (self', Rejected e)
         | (self', Pending) \<Rightarrow> (self', Pending))
      else (self, Resolved ()))"

definition constructor :: "(block \<Rightarrow> string) \<Rightarrow> (jsval \<Rightarrow> string) \<Rightarrow> int \<Rightarrow> blockchain" where
  "constructor H encode now =
     fst (initializeChain H encode now \<lparr>chain = [], chainHeight = - 1\<rparr>)"

subsection \<open>The ownership challenge\<close>

definition requestMessageOwnershipVerification :: "int \<Rightarrow> string \<Rightarrow> string promise" where
  "requestMessageOwnershipVerification now address =
     Resolved (address @ '':'' @ time_string now @ '':starRegistry'')"

text \<open>
  Line 144, \<open>parseInt(message.split(':')[1])\<close>: with a single segment the index yields
  \<open>undefined\<close>, which \<open>parseInt\<close> reads as the string undefined.
\<close>

definition messageTime :: "string \<Rightarrow> int option" where
  "messageTime message =
     (let segments = split_colon message
      in if 1 < length segments then parseInt (segments ! 1) else parseInt ''undefined'')"

text \<open>Line 150.\<close>

definition currentTime :: "int \<Rightarrow> int option" where
  "currentTime now = parseInt (time_string now)"

text \<open>
  \<open>submitStar\<close>, lines 139 to 171.  \<open>verify\<close> is \<open>bitcoinMessage.verify\<close>, which returns
  a boolean or throws an error of the library, given by its message; \<open>now\<close> is the clock
  reading of line 150 and \<open>now'\<close> the later one of \<open>_addBlock\<close>.  Every throw is caught
  at line 167 and rejects the promise; the promise of \<open>_addBlock\<close> is awaited and its
  outcome passed on.
\<close>

definition submitStar ::
  "(block \<Rightarrow> string) \<Rightarrow> (jsval \<Rightarrow> string) \<Rightarrow> (string \<Rightarrow> string \<Rightarrow> string \<Rightarrow> string + bool)
     \<Rightarrow> int \<Rightarrow> int \<Rightarrow> blockchain \<Rightarrow> string \<Rightarrow> string \<Rightarrow> string \<Rightarrow> jsval
     \<Rightarrow> blockchain \<times> block promise" where
  "submitStar H encode verify now now' self address message signature star =
     (if falsy (messageTime message) then
        (self, Rejected (Error ''Invalid message format''))
      else if js_greater (js_minus (currentTime now) (5 * 60)) (messageTime message) then
        (self, Rejected (Error ''Message is old. Request new message and resubmit the request''))
      else
        (case verify message address signature of
           Inl thrown \<Rightarrow> (self, Rejected (Thrown thrown))
         | Inr ok \<Rightarrow>
             if \<not> ok then (self, Rejected (Error ''Message verification failed''))
             else addBlock H now' self
                    (Block encode (JObj [(''owner'', JStr address), (''star'', star)]))))"

subsection \<open>getStarsByWalletAddress\<close>

text \<open>
  \<open>const { owner } = data\<close>: destructuring \<open>null\<close> or \<open>undefined\<close> throws; an object
  without the property, and any other primitive, gives \<open>undefined\<close>.
\<close>

definition destructure_owner :: "jsval \<Rightarrow> js_error + jsval" where
  "destructure_owner data =
     (case data of
        JUndefined \<Rightarrow> Inl TypeError
      | JNull \<Rightarrow> Inl TypeError
      | JObj props \<Rightarrow>
          (case map_of props ''owner'' of None \<Rightarrow> Inr JUndefined | Some v \<Rightarrow> Inr v)
      | _ \<Rightarrow> Inr JUndefined)"

text \<open>
  The \<open>for ... of\<close> loop of lines 214 to 224 over the blocks still to visit, with the
  array \<open>stars\<close>; the \<open>catch\<close> swallows what \<open>getBData\<close> and the destructuring throw.
  The address is a string, so \<open>owner === address\<close> holds for that string only.
\<close>

fun stars_loop ::
  "(string \<Rightarrow> js_error + jsval) \<Rightarrow> string \<Rightarrow> block list \<Rightarrow> jsval list \<Rightarrow> jsval list" where
  "stars_loop decode address [] stars = stars"
| "stars_loop decode address (blk # rest) stars =
     (case getBData decode blk of
        Inl e \<Rightarrow> stars_loop decode address rest stars
      | Inr data \<Rightarrow>
          (case destructure_owner data of
             Inl e \<Rightarrow> stars_loop decode address rest stars
           | Inr owner \<Rightarrow>
               if owner = JStr address then stars_loop decode address rest (stars @ [data])
               else stars_loop decode address rest stars))"

definition getStarsByWalletAddress ::
  "(string \<Rightarrow> js_error + jsval) \<Rightarrow> blockchain \<Rightarrow> string \<Rightarrow> jsval list promise" where
  "getStarsByWalletAddress decode self address =
     Resolved (stars_loop decode address (chain self) [])"

section \<open>Sequences of operations\<close>

text \<open>
  A run of successful appends: each \<open>_addBlock\<close> gets its own clock reading and block,
  and the run is \<open>None\<close> as soon as one call does not resolve.
\<close>

fun appendAll ::
  "(block \<Rightarrow> string) \<Rightarrow> blockchain \<Rightarrow> (int \<times> block) list \<Rightarrow> blockchain option" where
  "appendAll H self [] = Some self"
| "appendAll H self ((now, blk) # rest) =
     (case addBlock H now self blk of
        (self', Resolved added) \<Rightarrow> appendAll H self' rest
      | (self', Rejected e) \<Rightarrow> None
      | (self', Pending) \<Rightarrow> None)"

text \<open>
  The operations on a store, with their arguments and clock readings.  The five queries
  assign nothing to \<open>this\<close>, so they leave the store as it is.
\<close>

datatype operation =
    OpInitializeChain int
  | OpAddBlock int block
  | OpSubmitStar int int string string string jsval
  | OpGetChainHeight
  | OpGetBlockByHash "string option"
  | OpGetBlockByHeight int
  | OpGetStarsByWalletAddress string
  | OpValidateChain

fun perform ::
  "(block \<Rightarrow> string) \<Rightarrow> (jsval \<Rightarrow> string) \<Rightarrow> (string \<Rightarrow> string \<Rightarrow> string \<Rightarrow> string + bool)
     \<Rightarrow> blockchain \<Rightarrow> operation \<Rightarrow> blockchain" where
  "perform H encode verify self (OpInitializeChain now) = fst (initializeChain H encode now self)"
| "perform H encode verify self (OpAddBlock now blk) = fst (addBlock H now self blk)"
| "perform H encode verify self (OpSubmitStar now now' address message signature star) =
     fst (submitStar H encode verify now now' self address message signature star)"
| "perform H encode verify self OpGetChainHeight = self"
| "perform H encode verify self (OpGetBlockByHash h) = self"
| "perform H encode verify self (OpGetBlockByHeight h) = self"
| "perform H encode verify self (OpGetStarsByWalletAddress address) = self"
| "perform H encode verify self OpValidateChain = self"

text \<open>The store after \<open>new Blockchain()\<close> at time \<open>now\<close> and the operations \<open>ops\<close>.\<close>

definition run ::
  "(block \<Rightarrow> string) \<Rightarrow> (jsval \<Rightarrow> string) \<Rightarrow> (string \<Rightarrow> string \<Rightarrow> string \<Rightarrow> string + bool)
     \<Rightarrow> int \<Rightarrow> operation list \<Rightarrow> blockchain" where
  "run H encode verify now ops = foldl (perform H encode verify) (constructor H encode now) ops"

text \<open>
  A stored block is an object that \<open>getBlockByHeight\<close> and \<open>getBlockByHash\<close> hand out,
  so its fields can be assigned from outside the class: \<open>tamper i f\<close> applies the
  assignments \<open>f\<close> to the block at index \<open>i\<close>.
\<close>

definition tamper :: "nat \<Rightarrow> (block \<Rightarrow> block) \<Rightarrow> blockchain \<Rightarrow> blockchain" where
  "tamper i f self = self\<lparr>chain := (chain self)[i := f (chain self ! i)]\<rparr>"

section \<open>The ownership query as the specification words it\<close>

text \<open>
  Spec 4.2, \<open>get_all_owned_by\<close>: "iterates all blocks, decodes payload, skips blocks whose
  decoded payload lacks an owner field or whose decode fails, collects decoded payloads
  whose owner == address, preserving chain order."
\<close>

definition owned_by :: "string \<Rightarrow> jsval \<Rightarrow> bool" where
  "owned_by address data =
     (case data of
        JObj props \<Rightarrow> map_of props ''owner'' = Some (JStr address)
      | _ \<Rightarrow> False)"

definition owned_payload :: "(string \<Rightarrow> js_error + jsval) \<Rightarrow> string \<Rightarrow> block \<Rightarrow> jsval option" where
  "owned_payload decode address blk =
     (case getBData decode blk of
        Inl e \<Rightarrow> None
      | Inr data \<Rightarrow> if owned_by address data then Some data else None)"

definition get_all_owned_by ::
  "(string \<Rightarrow> js_error + jsval) \<Rightarrow> string \<Rightarrow> block list \<Rightarrow> jsval list" where
  "get_all_owned_by decode address blocks = List.map_filter (owned_payload decode address) blocks"

section \<open>Collaborators for the examples\<close>

text \<open>
  The theorems below hold for every digest \<open>H\<close>, codec and verifier.  To run the
  operations on concrete stores, the examples use a digest that joins the fields of the
  block, a codec that stores a string as it is, and a verifier that accepts exactly the
  signature \<open>valid\<close>.
\<close>

definition show_height :: "int option \<Rightarrow> string" where
  "show_height h = (case h of None \<Rightarrow> ''null'' | Some n \<Rightarrow> toString n)"

definition concat_digest :: "block \<Rightarrow> string" where
  "concat_digest b =
     show_field (hash b) @ ''|'' @ show_height (height b) @ ''|'' @ body b @ ''|''
       @ show_field (time b) @ ''|'' @ show_field (previousBlockHash b)"

definition plain_encode :: "jsval \<Rightarrow> string" where
  "plain_encode data = (case data of JStr s \<Rightarrow> s | _ \<Rightarrow> ''{}'')"

definition example_verify :: "string \<Rightarrow> string \<Rightarrow> string \<Rightarrow> string + bool" where
  "example_verify message address signature = Inr (signature = ''valid'')"

text \<open>A fresh store, and the stores after one and after two appends.\<close>

definition store0 :: blockchain where
  "store0 = constructor concat_digest plain_encode 1700000000000"

definition store1 :: blockchain where
  "store1 = fst (addBlock concat_digest 1700000060000 store0 (Block plain_encode (JStr ''star 1'')))"

definition store2 :: blockchain where
  "store2 = fst (addBlock concat_digest 1700000120000 store1 (Block plain_encode (JStr ''star 2'')))"

text \<open>The entries that the walk may add for the unvalidated blocks of a set.\<close>

definition entries_of :: "(block \<Rightarrow> string) \<Rightarrow> block set \<Rightarrow> string set" where
  "entries_of H B = invalid_entry ` {b \<in> B. \<not> validate H b}"

section \<open>Invariants of the store\<close>

text \<open>The counter is the index of the last block.\<close>

definition consistent :: "blockchain \<Rightarrow> bool" where
  "consistent self = (chainHeight self = int (length (chain self)) - 1)"

text \<open>
  Moreover the block at index \<open>i\<close> has height \<open>i\<close>, and every block but the first
  names the hash of the block before it.
\<close>

definition well_linked :: "blockchain \<Rightarrow> bool" where
  "well_linked self =
     (consistent self
      \<and> (\<forall>i < length (chain self). height (chain self ! i) = Some (int i))
      \<and> (\<forall>i. 0 < i \<and> i < length (chain self)
             \<longrightarrow> previousBlockHash (chain self ! i) = hash (chain self ! (i - 1))))"

section \<open>The backward walk\<close>

lemma validateLoop_None: "validateLoop H self None errorLog = Some (Inr (errorLog, None))"
  by (subst validateLoop.simps) simp

text \<open>One turn of the loop, for a loop variable that is a block.\<close>

lemma validateLoop_Some:
  "validateLoop H self (Some b) errorLog =
     (case getBlockByHash self (previousBlockHash b) of
        None \<Rightarrow> Some (Inl TypeError)
      | Some b' \<Rightarrow>
          if height b' = Some 0
          then Some (Inr (if \<not> validate H b then errorLog @ [invalid_entry b] else errorLog,
                          Some b'))
          else validateLoop H self (Some b')
                 (if \<not> validate H b then errorLog @ [invalid_entry b] else errorLog))"
  by (subst validateLoop.simps) (simp add: Let_def split: option.splits)

lemma getBlockByHash_Some:
  "getBlockByHash self h = Some b \<Longrightarrow> b \<in> set (chain self) \<and> hash b = h"
  by (auto simp: getBlockByHash_def find_Some_iff)

lemma entries_of_mono: "A \<subseteq> B \<Longrightarrow> entries_of H A \<subseteq> entries_of H B"
  by (auto simp: entries_of_def)

text \<open>
  The loop is left in one way only, by the \<open>break\<close> of line 253: when it returns after
  starting at a block, the loop variable is a block of height 0.
\<close>

lemma validateLoop_exit:
  assumes "validateLoop H self blk errorLog = Some y"
  shows "case y of
           Inl e \<Rightarrow> e = TypeError
         | Inr (errorLog', blk') \<Rightarrow>
             (case blk' of None \<Rightarrow> blk = None | Some b \<Rightarrow> height b = Some 0)"
  using assms
proof (induction rule: validateLoop.raw_induct [rotated 1, consumes 1])
  case (1 f H self blk errorLog y)
  show ?case
  proof (cases blk)
    case None
    with 1(2) show ?thesis by auto
  next
    case (Some b)
    show ?thesis
    proof (cases "getBlockByHash self (previousBlockHash b)")
      case None
      with Some 1(2) show ?thesis by (auto simp: Let_def)
    next
      case b': (Some b')
      show ?thesis
      proof (cases "height b' = Some 0")
        case True
        with b' Some 1(2) show ?thesis by (auto simp: Let_def)
      next
        case False
        with b' Some 1(2) have "\<exists>l. f H self (Some b') l = Some y"
          by (auto simp: Let_def)
        then obtain l where "f H self (Some b') l = Some y" ..
        from 1(1)[OF this] show ?thesis
          by (auto split: sum.splits option.splits)
      qed
    qed
  qed
qed

text \<open>
  What the loop adds to the log are entries for blocks that fail \<open>validate\<close>, and the
  blocks it validates are the one it starts at and stored blocks whose height is not 0.
\<close>

lemma validateLoop_entries:
  assumes "validateLoop H self blk errorLog = Some y"
  shows "case y of
           Inl e \<Rightarrow> True
         | Inr (errorLog', blk') \<Rightarrow>
             \<exists>more. errorLog' = errorLog @ more
                  \<and> set more \<subseteq> entries_of H (set_option blk \<union> {c \<in> set (chain self). height c \<noteq> Some 0})"
  using assms
proof (induction rule: validateLoop.raw_induct [rotated 1, consumes 1])
  case (1 f H self blk errorLog y)
  show ?case
  proof (cases blk)
    case None
    with 1(2) show ?thesis by auto
  next
    case (Some b)
    define log1 where "log1 = (if \<not> validate H b then errorLog @ [invalid_entry b] else errorLog)"
    have log1: "\<exists>m. log1 = errorLog @ m
                  \<and> set m \<subseteq> entries_of H (set_option blk \<union> {c \<in> set (chain self). height c \<noteq> Some 0})"
      using Some by (auto simp: log1_def entries_of_def)
    show ?thesis
    proof (cases "getBlockByHash self (previousBlockHash b)")
      case None
      with Some 1(2) show ?thesis by (auto simp: Let_def)
    next
      case b': (Some b')
      then have mem: "b' \<in> set (chain self)" by (simp add: getBlockByHash_Some)
      show ?thesis
      proof (cases "height b' = Some 0")
        case True
        with b' Some 1(2) have "y = Inr (log1, Some b')" by (auto simp: Let_def log1_def)
        with log1 show ?thesis by simp
      next
        case False
        with b' Some 1(2) have "f H self (Some b') log1 = Some y"
          by (auto simp: Let_def log1_def)
        from 1(1)[OF this] have ih: "case y of
           Inl e \<Rightarrow> True
         | Inr (errorLog', blk') \<Rightarrow>
             \<exists>more. errorLog' = log1 @ more
                  \<and> set more \<subseteq> entries_of H (set_option (Some b') \<union> {c \<in> set (chain self). height c \<noteq> Some 0})" .
        have sub: "entries_of H (set_option (Some b') \<union> {c \<in> set (chain self). height c \<noteq> Some 0})
                 \<subseteq> entries_of H (set_option blk \<union> {c \<in> set (chain self). height c \<noteq> Some 0})"
          using mem False by (intro entries_of_mono) auto
        show ?thesis
        proof (cases y)
          case (Inl e)
          then show ?thesis by simp
        next
          case (Inr p)
          obtain l' k' where p: "p = (l', k')" by (cases p)
          from ih Inr p obtain more where more: "l' = log1 @ more"
            "set more \<subseteq> entries_of H (set_option (Some b') \<union> {c \<in> set (chain self). height c \<noteq> Some 0})" by auto
          from log1 obtain m where m: "log1 = errorLog @ m"
            "set m \<subseteq> entries_of H (set_option blk \<union> {c \<in> set (chain self). height c \<noteq> Some 0})" by auto
          have "l' = errorLog @ (m @ more)" using more(1) m(1) by simp
          moreover have "set (m @ more) \<subseteq> entries_of H (set_option blk \<union> {c \<in> set (chain self). height c \<noteq> Some 0})"
            using m(2) more(2) sub by auto
          ultimately show ?thesis using Inr p by auto
        qed
      qed
    qed
  qed
qed

text \<open>
  A set of blocks that the lookup of the predecessor never leaves, and in which no
  predecessor has height 0, keeps the loop running forever.
\<close>

lemma validateLoop_diverges:
  assumes closed: "\<And>c. c \<in> C \<Longrightarrow>
             \<exists>c'. getBlockByHash self (previousBlockHash c) = Some c'
                  \<and> height c' \<noteq> Some 0 \<and> c' \<in> C"
    and start: "b \<in> C"
  shows "validateLoop H self (Some b) errorLog = None"
proof (rule ccontr)
  assume "validateLoop H self (Some b) errorLog \<noteq> None"
  then obtain y where returns: "validateLoop H self (Some b) errorLog = Some y" by auto
  have "self' = self \<Longrightarrow> blk \<notin> Some ` C"
    if "validateLoop H' self' blk errorLog = Some y" for H' self' blk
    using that
  proof (induction rule: validateLoop.raw_induct [rotated 1, consumes 1])
    case (1 f H' self' blk errorLog y)
    show ?case
    proof
      assume "blk \<in> Some ` C"
      then obtain c where c: "blk = Some c" "c \<in> C" by auto
      from closed[OF c(2)] obtain c' where c':
        "getBlockByHash self (previousBlockHash c) = Some c'" "height c' \<noteq> Some 0" "c' \<in> C"
        by auto
      with 1(2) c "1.prems" have "\<exists>l. f H' self' (Some c') l = Some y"
        by (auto simp: Let_def)
      then obtain l where "f H' self' (Some c') l = Some y" ..
      from 1(1)[OF this "1.prems"] c'(3) show False by auto
    qed
  qed
  from this[OF returns] start show False by auto
qed

text \<open>
  When \<open>validateChain\<close> resolves, every entry of the log is the entry of a stored block
  that fails \<open>validate\<close>, and that block is the tip or has a height other than 0: a block
  of height 0 below the tip is never validated.
\<close>

lemma validateChain_entries:
  assumes "validateChain H self = Some (Inr errorLog)"
  shows "set errorLog \<subseteq> entries_of H
           ({chain self ! (length (chain self) - 1)} \<union> {c \<in> set (chain self). height c \<noteq> Some 0})"
proof (cases "1 < length (chain self)")
  case False
  with assms show ?thesis by (simp add: validateChain_def)
next
  case True
  let ?tip = "chain self ! (length (chain self) - 1)"
  have tip: "?tip \<in> set (chain self)" using True by simp
  from assms True obtain y where y: "validateLoop H self (Some ?tip) [] = Some y"
    by (auto simp: validateChain_def split: option.splits)
  from validateLoop_exit[OF y] validateLoop_entries[OF y] assms True y
  show ?thesis
    by (auto simp: validateChain_def split: sum.splits option.splits if_splits)
qed

lemma broken_entry_not_invalid: "broken_entry b \<noteq> invalid_entry b'"
  by (simp add: broken_entry_def invalid_entry_def)

text \<open>
  The check of lines 258 to 260 never fires: no log that \<open>validateChain\<close> resolves with
  holds the entry of a broken chain, for any store and any block.
\<close>

lemma validateChain_never_broken:
  assumes "validateChain H self = Some (Inr errorLog)"
  shows "broken_entry b \<notin> set errorLog"
  using validateChain_entries[OF assms] broken_entry_not_invalid
  by (auto simp: entries_of_def)

text \<open>
  If the predecessor of the tip is not in the chain, line 252 reads \<open>height\<close> on
  \<open>null\<close>, whatever the digest.
\<close>

lemma validateChain_missing_predecessor:
  assumes "1 < length (chain self)"
    and "getBlockByHash self (previousBlockHash (chain self ! (length (chain self) - 1))) = None"
  shows "validateChain H self = Some (Inl TypeError)"
  using assms by (simp add: validateChain_def validateLoop_Some)

section \<open>The example stores\<close>

lemma time_string_examples:
  "time_string 1700000000000 = ''1700000000''"
  "time_string 1700000060000 = ''1700000060''"
  "time_string 1700000120000 = ''1700000120''"
  "time_string 1700000180000 = ''1700000180''"
  by (simp_all add: time_string_def slice_0_neg_def toString_def digits.simps digit_char_def)

lemmas example_defs = Block_def concat_digest_def plain_encode_def genesis_data_def
  show_field_def show_height_def toString_def digits.simps digit_char_def time_string_examples

lemmas eval_defs = addBlock_def pushBlock_def validateChain_def validateLoop_Some
  getBlockByHash_def validate_def invalid_entry_def broken_entry_def Let_def

lemma store0_value:
  "store0 = \<lparr>chain =
     [\<lparr>hash = Some ''null|0|{}|1700000000|null'', height = Some 0, body = ''{}'',
         time = Some ''1700000000'', previousBlockHash = None\<rparr>],
     chainHeight = 0\<rparr>"
  by (simp add: store0_def constructor_def initializeChain_def eval_defs example_defs)

lemma store1_value:
  "store1 = \<lparr>chain =
     [\<lparr>hash = Some ''null|0|{}|1700000000|null'', height = Some 0, body = ''{}'',
         time = Some ''1700000000'', previousBlockHash = None\<rparr>,
      \<lparr>hash = Some ''null|1|star 1|1700000060|null|0|{}|1700000000|null'',
         height = Some 1, body = ''star 1'', time = Some ''1700000060'',
         previousBlockHash = Some ''null|0|{}|1700000000|null''\<rparr>],
     chainHeight = 1\<rparr>"
  by (simp add: store1_def store0_value eval_defs example_defs)

lemma store2_value:
  "store2 = \<lparr>chain =
     [\<lparr>hash = Some ''null|0|{}|1700000000|null'', height = Some 0, body = ''{}'',
         time = Some ''1700000000'', previousBlockHash = None\<rparr>,
      \<lparr>hash = Some ''null|1|star 1|1700000060|null|0|{}|1700000000|null'',
         height = Some 1, body = ''star 1'', time = Some ''1700000060'',
         previousBlockHash = Some ''null|0|{}|1700000000|null''\<rparr>,
      \<lparr>hash = Some
          ''null|2|star 2|1700000120|null|1|star 1|1700000060|null|0|{}|1700000000|null'',
         height = Some 2, body = ''star 2'', time = Some ''1700000120'',
         previousBlockHash = Some ''null|1|star 1|1700000060|null|0|{}|1700000000|null''\<rparr>],
     chainHeight = 2\<rparr>"
  by (simp add: store2_def store1_value eval_defs example_defs)

section \<open>Claims about validateChain\<close>

text \<open>
  C1.  The claim: in every chain state in which some non-genesis block's
  \<open>previousBlockHash\<close> is the hash of no block of the chain, \<open>validateChain\<close> resolves
  with an error list that holds a broken-chain entry, and does not dereference the missing
  predecessor.

  The code does dereference it.  In the store of two blocks whose second block has
  \<open>previousBlockHash\<close> set to a string that is no block's hash, \<open>getBlockByHash\<close> yields
  \<open>null\<close> and line 252 throws the \<open>TypeError\<close> in the executor: the promise is never
  resolved, and no error list is produced.
\<close>

theorem validateChain_missing_predecessor_throws:
  "getBlockByHash (tamper 1 (\<lambda>b. b\<lparr>previousBlockHash := Some ''missing''\<rparr>) store1)
     (previousBlockHash
        (chain (tamper 1 (\<lambda>b. b\<lparr>previousBlockHash := Some ''missing''\<rparr>) store1) ! 1)) = None
   \<and> validateChain concat_digest
        (tamper 1 (\<lambda>b. b\<lparr>previousBlockHash := Some ''missing''\<rparr>) store1)
       = Some (Inl TypeError)"
  by (simp add: tamper_def store1_value eval_defs example_defs)

text \<open>
  C3.  The claim: for every stored block, the genesis block included, changing a field
  other than \<open>hash\<close> makes the block's \<open>validate\<close> false, and \<open>validateChain\<close>, run
  with a tip beyond that block, resolves with a non-empty list that names the block's hash.

  The walk leaves the loop as soon as it reaches a block of height 0, before validating
  it.  In the store of three blocks whose genesis block has its \<open>body\<close> changed, the
  genesis block validated before the change and fails \<open>validate\<close> after it, and
  \<open>validateChain\<close> resolves with the empty list.
\<close>

theorem validateChain_skips_tampered_genesis:
  "validate concat_digest (chain store2 ! 0)
   \<and> \<not> validate concat_digest (chain (tamper 0 (\<lambda>b. b\<lparr>body := ''tampered''\<rparr>) store2) ! 0)
   \<and> validateChain concat_digest (tamper 0 (\<lambda>b. b\<lparr>body := ''tampered''\<rparr>) store2)
       = Some (Inr [])"
  by (simp add: tamper_def store2_value eval_defs example_defs)

text \<open>
  C4.  The claim: \<open>validateChain\<close> terminates in every chain state, also when the
  \<open>previousBlockHash\<close> links form a cycle that never reaches a block of height 0, and then
  records the broken-chain entry.

  The loop has no bound and no memory of the blocks it has seen.  In the store of two
  blocks whose second block has \<open>previousBlockHash\<close> set to its own hash, the lookup
  returns that block again and again, and \<open>validateChain\<close> never returns.
\<close>

theorem validateChain_cycle_never_returns:
  "validateChain concat_digest (tamper 1 (\<lambda>b. b\<lparr>previousBlockHash := hash b\<rparr>) store1) = None"
proof -
  define self where "self = tamper 1 (\<lambda>b. b\<lparr>previousBlockHash := hash b\<rparr>) store1"
  define tip where "tip = chain self ! (length (chain self) - 1)"
  have len: "1 < length (chain self)"
    by (simp add: self_def tamper_def store1_value)
  have look: "getBlockByHash self (previousBlockHash tip) = Some tip"
    by (simp add: tip_def self_def tamper_def store1_value getBlockByHash_def)
  have h: "height tip \<noteq> Some 0"
    by (simp add: tip_def self_def tamper_def store1_value)
  have "validateLoop concat_digest self (Some tip) [] = None"
    by (rule validateLoop_diverges[where C = "{tip}"]) (use look h in auto)
  with len show ?thesis
    unfolding self_def [symmetric] by (simp add: validateChain_def tip_def)
qed

section \<open>Appending\<close>

text \<open>What lines 70 to 88 do to the store when they run to the end.\<close>

lemma pushBlock_Inr:
  assumes "pushBlock H now self blk = Inr (self', blk')"
  shows "chain self' = chain self @ [blk']"
    and "chainHeight self' = chainHeight self + 1"
    and "height blk' = Some (chainHeight self + 1)"
    and "0 \<le> chainHeight self \<Longrightarrow> previousBlockHash blk' = hash (chain self ! nat (chainHeight self))"
    and "0 \<le> chainHeight self \<Longrightarrow> nat (chainHeight self) < length (chain self)"
  using assms by (auto simp: pushBlock_def Let_def split: if_splits)

lemma pushBlock_consistent:
  assumes "consistent self"
  shows "\<exists>self' blk'. pushBlock H now self blk = Inr (self', blk')"
  using assms by (cases "chain self") (auto simp: pushBlock_def Let_def consistent_def)

lemma addBlock_Inl:
  "pushBlock H now self blk = Inl e \<Longrightarrow> addBlock H now self blk = (self, Rejected e)"
  by (simp add: addBlock_def)

lemma addBlock_Inr:
  "pushBlock H now self blk = Inr (self', blk') \<Longrightarrow> fst (addBlock H now self blk) = self'"
  by (simp add: addBlock_def split: option.splits sum.splits)

lemma addBlock_Resolved:
  assumes "addBlock H now self blk = (self', Resolved added)"
  shows "pushBlock H now self blk = Inr (self', added)"
  using assms by (auto simp: addBlock_def split: sum.splits option.splits if_splits)

lemma addBlock_consistent:
  assumes "consistent self"
  shows "consistent (fst (addBlock H now self blk))"
proof -
  from pushBlock_consistent[OF assms] obtain self' blk'
    where p: "pushBlock H now self blk = Inr (self', blk')" by blast
  from pushBlock_Inr(1,2)[OF p] assms have "consistent self'" by (simp add: consistent_def)
  with addBlock_Inr[OF p] show ?thesis by simp
qed

lemma addBlock_pushes:
  assumes "consistent self"
  shows "\<exists>b. chain (fst (addBlock H now self blk)) = chain self @ [b]
           \<and> chainHeight (fst (addBlock H now self blk)) = chainHeight self + 1"
proof -
  from pushBlock_consistent[OF assms] obtain self' blk'
    where p: "pushBlock H now self blk = Inr (self', blk')" by blast
  from pushBlock_Inr(1,2)[OF p] addBlock_Inr[OF p] show ?thesis by auto
qed

lemma initializeChain_consistent:
  assumes "consistent self"
  shows "consistent (fst (initializeChain H encode now self))"
proof (cases "chainHeight self = - 1")
  case False then show ?thesis using assms by (simp add: initializeChain_def)
next
  case True
  have "fst (initializeChain H encode now self) = fst (addBlock H now self (Block encode genesis_data))"
    using True by (simp add: initializeChain_def split: prod.splits promise.splits)
  with addBlock_consistent[OF assms] show ?thesis by simp
qed

lemma submitStar_state:
  "fst (submitStar H encode verify now now' self address message signature star) = self
   \<or> fst (submitStar H encode verify now now' self address message signature star)
       = fst (addBlock H now' self (Block encode (JObj [(''owner'', JStr address), (''star'', star)])))"
  by (simp add: submitStar_def split: sum.splits)

lemma submitStar_consistent:
  assumes "consistent self"
  shows "consistent (fst (submitStar H encode verify now now' self address message signature star))"
  using submitStar_state[of H encode verify now now' self address message signature star]
    addBlock_consistent[OF assms] assms by auto

lemma perform_consistent:
  "consistent self \<Longrightarrow> consistent (perform H encode verify self op)"
  by (cases op) (simp_all add: addBlock_consistent initializeChain_consistent submitStar_consistent)

lemma foldl_perform_consistent:
  "consistent self \<Longrightarrow> consistent (foldl (perform H encode verify) self ops)"
  by (induction ops arbitrary: self) (simp_all add: perform_consistent)

lemma empty_consistent: "consistent \<lparr>chain = [], chainHeight = - 1\<rparr>"
  by (simp add: consistent_def)

lemma constructor_consistent: "consistent (constructor H encode now)"
  unfolding constructor_def by (rule initializeChain_consistent[OF empty_consistent])

lemma run_consistent: "consistent (run H encode verify now ops)"
  unfolding run_def by (rule foldl_perform_consistent[OF constructor_consistent])

lemma pushBlock_well_linked:
  assumes wl: "well_linked self" and p: "pushBlock H now self blk = Inr (self', blk')"
  shows "well_linked self'"
proof -
  note facts = pushBlock_Inr[OF p]
  from wl have c: "chainHeight self = int (length (chain self)) - 1"
    by (simp add: well_linked_def consistent_def)
  have "consistent self'" using facts(1,2) c by (simp add: consistent_def)
  moreover have "height (chain self' ! i) = Some (int i)" if "i < length (chain self')" for i
  proof (cases "i < length (chain self)")
    case True
    with wl show ?thesis by (simp add: facts(1) nth_append well_linked_def)
  next
    case False
    with that have "i = length (chain self)" by (simp add: facts(1))
    then show ?thesis using facts(3) c by (simp add: facts(1))
  qed
  moreover have "previousBlockHash (chain self' ! i) = hash (chain self' ! (i - 1))"
    if "0 < i" "i < length (chain self')" for i
  proof (cases "i < length (chain self)")
    case True
    then have "i - 1 < length (chain self)" by simp
    with True wl that show ?thesis by (auto simp: facts(1) nth_append well_linked_def)
  next
    case False
    with that have i: "i = length (chain self)" by (simp add: facts(1))
    with that(1) c have "0 \<le> chainHeight self" "nat (chainHeight self) = i - 1" by auto
    with facts(4) i that(1) show ?thesis by (simp add: facts(1) nth_append)
  qed
  ultimately show ?thesis by (simp add: well_linked_def)
qed

lemma appendAll_well_linked:
  assumes "well_linked self" and "appendAll H self appends = Some self'"
  shows "well_linked self' \<and> length (chain self') = length (chain self) + length appends"
  using assms
proof (induction appends arbitrary: self)
  case Nil
  then show ?case by simp
next
  case (Cons a rest)
  obtain now blk where a: "a = (now, blk)" by (cases a)
  from Cons.prems(2) a obtain mid added where
    step: "addBlock H now self blk = (mid, Resolved added)" and rest: "appendAll H mid rest = Some self'"
    by (auto split: prod.splits promise.splits)
  note p = addBlock_Resolved[OF step]
  from pushBlock_well_linked[OF Cons.prems(1) p] have "well_linked mid" .
  from Cons.IH[OF this rest] pushBlock_Inr(1)[OF p] show ?case by simp
qed

lemma constructor_chain:
  "\<exists>g. constructor H encode now = \<lparr>chain = [g], chainHeight = 0\<rparr> \<and> height g = Some 0"
  by (simp add: constructor_def initializeChain_def addBlock_def pushBlock_def validateChain_def Let_def)

lemma constructor_well_linked: "well_linked (constructor H encode now)"
proof -
  from constructor_chain[of H encode now] obtain g where
    "constructor H encode now = \<lparr>chain = [g], chainHeight = 0\<rparr>" "height g = Some 0" by blast
  then show ?thesis by (simp add: well_linked_def consistent_def)
qed

section \<open>The walk on a linked chain\<close>

lemma find_first_index:
  assumes "k < length xs" and "P (xs ! k)"
  shows "\<exists>j \<le> k. find P xs = Some (xs ! j)"
proof -
  from assms have "\<exists>x. find P xs = Some x"
    by (cases "find P xs") (auto simp: find_None_iff)
  then obtain x where x: "find P xs = Some x" ..
  then obtain j where j: "j < length xs" "x = xs ! j" "\<forall>m<j. \<not> P (xs ! m)"
    by (auto simp: find_Some_iff)
  from j(3) assms(2) have "j \<le> k" by (meson not_le)
  with x j(2) show ?thesis by blast
qed

text \<open>
  On a linked chain the walk returns: the lookup of the predecessor finds a block at a
  smaller index, whose height is its index, so the walk reaches index 0.
\<close>

lemma validateLoop_returns_on_well_linked:
  assumes wl: "well_linked self"
  shows "0 < i \<Longrightarrow> i < length (chain self) \<Longrightarrow>
         \<exists>errorLog' g. validateLoop H self (Some (chain self ! i)) errorLog
                          = Some (Inr (errorLog', Some g))"
proof (induction i arbitrary: errorLog rule: less_induct)
  case (less i)
  let ?b = "chain self ! i"
  from wl less.prems have prev: "previousBlockHash ?b = hash (chain self ! (i - 1))"
    by (simp add: well_linked_def)
  have "i - 1 < length (chain self)" using less.prems by simp
  from find_first_index[of "i - 1" "chain self" "\<lambda>b. hash b = previousBlockHash ?b", OF this]
  obtain j where j: "j \<le> i - 1" "getBlockByHash self (previousBlockHash ?b) = Some (chain self ! j)"
    by (auto simp: getBlockByHash_def prev)
  from j(1) less.prems have jlt: "j < i" "j < length (chain self)" by simp_all
  with wl have hj: "height (chain self ! j) = Some (int j)" by (simp add: well_linked_def)
  show ?case
  proof (cases "j = 0")
    case True
    with hj j(2) show ?thesis by (simp add: validateLoop_Some)
  next
    case False
    then have "0 < j" by simp
    from less.IH[OF jlt(1) this jlt(2)] hj False j(2) show ?thesis
      by (simp add: validateLoop_Some)
  qed
qed

lemma validateChain_returns_on_well_linked:
  assumes "well_linked self"
  shows "\<exists>errorLog. validateChain H self = Some (Inr errorLog)"
proof (cases "1 < length (chain self)")
  case False
  then show ?thesis by (simp add: validateChain_def)
next
  case True
  then have "0 < length (chain self) - 1" "length (chain self) - 1 < length (chain self)" by simp_all
  from validateLoop_returns_on_well_linked[OF assms this, of H "[]"]
  obtain l g where r: "validateLoop H self (Some (chain self ! (length (chain self) - 1))) [] = Some (Inr (l, Some g))"
    by blast
  with True show ?thesis by (simp add: validateChain_def)
qed

section \<open>Claims about _addBlock\<close>

text \<open>
  C2.  Whenever lines 70 to 88 have pushed the block and the validation of line 91
  resolves with one or more errors, \<open>_addBlock\<close> rejects with the error that carries
  that list, and the store it leaves behind still holds the pushed block as its last
  block, with the counter incremented: nothing is rolled back.
\<close>

theorem addBlock_failure_is_not_rolled_back:
  assumes "pushBlock H now self blk = Inr (self', blk')"
    and "validateChain H self' = Some (Inr errorLog)"
    and "errorLog \<noteq> []"
  shows "addBlock H now self blk = (self', Rejected (BlockchainInvalid errorLog))
       \<and> chain self' = chain self @ [blk']
       \<and> chainHeight self' = chainHeight self + 1"
  using assms pushBlock_Inr(1,2)[OF assms(1)] by (simp add: addBlock_def)

theorem addBlock_failure_is_not_rolled_back_witness:
  "snd (addBlock concat_digest 1700000120000 (tamper 1 (\<lambda>b. b\<lparr>body := ''tampered''\<rparr>) store1)
          (Block plain_encode (JStr ''star 2'')))
     = Rejected (BlockchainInvalid
         [''Block with hash null|1|star 1|1700000060|null|0|{}|1700000000|null is invalid''])
   \<and> length (chain (fst (addBlock concat_digest 1700000120000
                (tamper 1 (\<lambda>b. b\<lparr>body := ''tampered''\<rparr>) store1)
                (Block plain_encode (JStr ''star 2''))))) = 3
   \<and> chainHeight (fst (addBlock concat_digest 1700000120000
                (tamper 1 (\<lambda>b. b\<lparr>body := ''tampered''\<rparr>) store1)
                (Block plain_encode (JStr ''star 2'')))) = 2"
proof -
  define self where "self = tamper 1 (\<lambda>b. b\<lparr>body := ''tampered''\<rparr>) store1"
  define blk where "blk = Block plain_encode (JStr ''star 2'')"
  define pushed where "pushed = projr (pushBlock concat_digest 1700000120000 self blk)"
  have p: "pushBlock concat_digest 1700000120000 self blk = Inr (fst pushed, snd pushed)"
    by (simp add: pushed_def pushBlock_def Let_def self_def tamper_def store1_value)
  have v: "validateChain concat_digest (fst pushed)
             = Some (Inr [''Block with hash null|1|star 1|1700000060|null|0|{}|1700000000|null is invalid''])"
    by (simp add: pushed_def self_def blk_def tamper_def store1_value eval_defs example_defs)
  have ne: "[''Block with hash null|1|star 1|1700000060|null|0|{}|1700000000|null is invalid''] \<noteq> []"
    by simp
  have len: "length (chain self) = 2" "chainHeight self = 1"
    by (simp_all add: self_def tamper_def store1_value)
  from addBlock_failure_is_not_rolled_back[OF p v ne] len
  show ?thesis unfolding self_def blk_def by simp
qed

text \<open>
  C5.  After \<open>N\<close> appends that all resolved, starting from a freshly constructed store,
  the counter is \<open>N\<close> and the chain has \<open>N + 1\<close> blocks; the block at index \<open>i\<close> has
  height \<open>i\<close>, and for every \<open>i > 0\<close> its \<open>previousBlockHash\<close> is the hash of the block
  at index \<open>i - 1\<close>.  From such a store, every further append that resolves has set
  \<open>previousBlockHash\<close> to the hash of the block that was the tip, and pushed the block.
\<close>

theorem appends_are_linked:
  assumes "appendAll H (constructor H encode now) appends = Some self"
  shows "chainHeight self = int (length appends)
       \<and> length (chain self) = length appends + 1
       \<and> (\<forall>i < length (chain self). height (chain self ! i) = Some (int i))
       \<and> (\<forall>i. 0 < i \<and> i < length (chain self)
             \<longrightarrow> previousBlockHash (chain self ! i) = hash (chain self ! (i - 1)))
       \<and> (\<forall>now' blk self' added. addBlock H now' self blk = (self', Resolved added)
             \<longrightarrow> previousBlockHash added = hash (last (chain self))
                 \<and> chain self' = chain self @ [added])"
proof -
  from appendAll_well_linked[OF constructor_well_linked assms] constructor_chain[of H encode now]
  have wl: "well_linked self" and len: "length (chain self) = length appends + 1" by auto
  from wl len have h: "chainHeight self = int (length appends)"
    by (simp add: well_linked_def consistent_def)
  have "previousBlockHash added = hash (last (chain self)) \<and> chain self' = chain self @ [added]"
    if "addBlock H now' self blk = (self', Resolved added)" for now' blk self' added
  proof -
    note p = addBlock_Resolved[OF that]
    have "nat (chainHeight self) = length (chain self) - 1" using h len by simp
    moreover have "chain self \<noteq> []" using len by auto
    ultimately show ?thesis using pushBlock_Inr(1)[OF p] pushBlock_Inr(4)[OF p] h
      by (simp add: last_conv_nth)
  qed
  with wl len h show ?thesis unfolding well_linked_def by blast
qed

theorem appends_are_linked_witness:
  "appendAll concat_digest (constructor concat_digest plain_encode 1700000000000)
     [(1700000060000, Block plain_encode (JStr ''star 1'')),
      (1700000120000, Block plain_encode (JStr ''star 2''))] = Some store2
   \<and> chainHeight store2 = 2
   \<and> height (chain store2 ! 2) = Some 2
   \<and> previousBlockHash (chain store2 ! 1) = hash (chain store2 ! 0)
   \<and> previousBlockHash (chain store2 ! 2) = hash (chain store2 ! 1)
   \<and> (\<exists>self' added.
         addBlock concat_digest 1700000180000 store2 (Block plain_encode (JStr ''star 3''))
           = (self', Resolved added)
         \<and> previousBlockHash added = hash (last (chain store2))
         \<and> chain self' = chain store2 @ [added])"
proof -
  have run: "appendAll concat_digest (constructor concat_digest plain_encode 1700000000000)
     [(1700000060000, Block plain_encode (JStr ''star 1'')),
      (1700000120000, Block plain_encode (JStr ''star 2''))] = Some store2"
    unfolding store0_def [symmetric]
    by (simp add: store2_value store0_value eval_defs example_defs)
  have "case snd (addBlock concat_digest 1700000180000 store2 (Block plain_encode (JStr ''star 3''))) of
          Resolved added \<Rightarrow> True | Rejected e \<Rightarrow> False | Pending \<Rightarrow> False"
    by (simp add: store2_value eval_defs example_defs)
  then obtain self' added where next_append:
    "addBlock concat_digest 1700000180000 store2 (Block plain_encode (JStr ''star 3''))
       = (self', Resolved added)"
    by (cases "addBlock concat_digest 1700000180000 store2 (Block plain_encode (JStr ''star 3''))")
       (auto split: promise.splits)
  from appends_are_linked[OF run] have "chainHeight store2 = 2"
    and "length (chain store2) = 3"
    and hts: "\<And>i. i < length (chain store2) \<Longrightarrow> height (chain store2 ! i) = Some (int i)"
    and link: "\<And>i. 0 < i \<and> i < length (chain store2)
             \<Longrightarrow> previousBlockHash (chain store2 ! i) = hash (chain store2 ! (i - 1))"
    and tip: "\<And>now' blk self' added.
             addBlock concat_digest now' store2 blk = (self', Resolved added)
             \<Longrightarrow> previousBlockHash added = hash (last (chain store2))
                 \<and> chain self' = chain store2 @ [added]"
    by auto
  with link[of 1] link[of 2] hts[of 2] tip[OF next_append] next_append run show ?thesis by simp
qed

text \<open>
  C6.  In every store reached from the constructor by any sequence of the operations
  (initialization, appends, submissions, queries), the counter is the length of the chain
  minus one; and from such a store every \<open>_addBlock\<close> pushes exactly one block and
  increments the counter by one, whatever the outcome of its promise.
\<close>

theorem height_is_length_minus_one:
  "chainHeight (run H encode verify now ops) = int (length (chain (run H encode verify now ops))) - 1
   \<and> (\<forall>now' blk. \<exists>b.
         chain (fst (addBlock H now' (run H encode verify now ops) blk))
           = chain (run H encode verify now ops) @ [b]
         \<and> chainHeight (fst (addBlock H now' (run H encode verify now ops) blk))
           = chainHeight (run H encode verify now ops) + 1)"
  using run_consistent[of H encode verify now ops] addBlock_pushes[OF run_consistent]
  by (auto simp: consistent_def)

section \<open>Decimal strings\<close>

text \<open>
  \<open>parseInt\<close> reads back what \<open>toString\<close> prints, and cutting the last three digits
  divides by 1000.
\<close>

lemma digit_cases: "d < 10 \<Longrightarrow> d \<in> {0, 1, 2, 3, 4, 5, 6, 7, 8, 9::nat}"
  by auto

lemma digit_value_digit_char: "d < 10 \<Longrightarrow> digit_value (digit_char d) = Some d"
  using digit_cases[of d] by (auto simp: digit_char_def digit_value_def)

lemma digit_char_plain:
  "d < 10 \<Longrightarrow> digit_char d \<notin> {CHR '':'', CHR ''-'', CHR ''+'', CHR ''x'', CHR ''X''}
     \<and> \<not> is_white_space (digit_char d)"
  using digit_cases[of d] by (auto simp: digit_char_def is_white_space_def)

lemma digits_chars: "c \<in> set (digits n) \<Longrightarrow> \<exists>d<10. c = digit_char d"
proof (induction n rule: digits.induct)
  case (1 n)
  show ?case
  proof (cases "n < 10")
    case True
    with "1.prems" show ?thesis by (subst (asm) digits.simps) auto
  next
    case False
    with "1.prems" have "c \<in> set (digits (n div 10)) \<or> c = digit_char (n mod 10)"
      by (subst (asm) digits.simps) auto
    then show ?thesis
    proof
      assume "c \<in> set (digits (n div 10))"
      with "1.IH"[OF False] show ?thesis by simp
    next
      assume "c = digit_char (n mod 10)"
      moreover have "n mod 10 < 10" by simp
      ultimately show ?thesis by blast
    qed
  qed
qed

lemma digits_plain:
  assumes "c \<in> set (digits n)"
  shows "c \<notin> {CHR '':'', CHR ''-'', CHR ''+'', CHR ''x'', CHR ''X''} \<and> \<not> is_white_space c"
proof -
  from digits_chars[OF assms] obtain d where "d < 10" "c = digit_char d" by blast
  with digit_char_plain[of d] show ?thesis by simp
qed

lemma digits_not_Nil: "digits n \<noteq> []"
  by (subst digits.simps) simp

lemma is_digit_digit_char: "d < 10 \<Longrightarrow> is_digit 10 (digit_char d)"
  by (simp add: is_digit_def digit_value_digit_char)

lemma takeWhile_digits: "takeWhile (is_digit 10) (digits n) = digits n"
  using digits_chars is_digit_digit_char by (fastforce simp: takeWhile_eq_all_conv)

lemma number_of_digits_snoc:
  "number_of_digits r (ds @ [c])
     = number_of_digits r ds * r + (case digit_value c of None \<Rightarrow> 0 | Some v \<Rightarrow> v)"
  by (simp add: number_of_digits_def)

lemma number_of_digits_digits: "number_of_digits 10 (digits n) = n"
proof (induction n rule: digits.induct)
  case (1 n)
  show ?case
  proof (cases "n < 10")
    case True
    then show ?thesis
      by (subst digits.simps) (simp add: number_of_digits_def digit_value_digit_char)
  next
    case False
    have "number_of_digits 10 (digits n)
            = number_of_digits 10 (digits (n div 10) @ [digit_char (n mod 10)])"
      using False by (subst digits.simps) simp
    also have "\<dots> = (n div 10) * 10 + n mod 10"
      using "1.IH"[OF False] by (simp add: number_of_digits_snoc digit_value_digit_char)
    finally show ?thesis by simp
  qed
qed

lemma parseInt_digits: "parseInt (digits n) = Some (int n)"
proof -
  obtain c cs where ds: "digits n = c # cs" using digits_not_Nil[of n] by (cases "digits n") auto
  note plain = digits_plain[of _ n]
  from plain[of c] ds have c: "\<not> is_white_space c" "c \<noteq> CHR ''-''" "c \<noteq> CHR ''+''" by auto
  have nohex: "\<not> (take 2 (c # cs) = ''0x'' \<or> take 2 (c # cs) = ''0X'')"
  proof (cases cs)
    case Nil then show ?thesis by simp
  next
    case (Cons c' cs')
    with ds plain[of c'] have "c' \<noteq> CHR ''x''" "c' \<noteq> CHR ''X''" by auto
    with Cons show ?thesis by simp
  qed
  have "parseInt (digits n) = parseInt_unsigned 1 (c # cs)"
    using c by (simp add: parseInt_def ds)
  also have "\<dots> = parseInt_radix 1 10 (c # cs)"
    unfolding parseInt_unsigned_def by (rule if_not_P[OF nohex])
  also have "\<dots> = parseInt_radix 1 10 (digits n)"
    by (simp add: ds)
  also have "\<dots> = Some (int n)"
    by (simp add: parseInt_radix_def takeWhile_digits digits_not_Nil number_of_digits_digits)
  finally show ?thesis .
qed

lemma butlast_digits: "10 \<le> n \<Longrightarrow> butlast (digits n) = digits (n div 10)"
  by (subst digits.simps) simp

lemma slice_0_neg_3: "slice_0_neg s 3 = butlast (butlast (butlast s))"
  by (simp add: slice_0_neg_def butlast_conv_take numeral_3_eq_3)

lemma time_string_seconds:
  assumes "1000 \<le> now"
  shows "time_string now = digits (nat (now div 1000))"
proof -
  define n where "n = nat now"
  have n: "1000 \<le> n" using assms by (simp add: n_def)
  have "time_string now = butlast (butlast (butlast (digits n)))"
    using assms by (simp add: time_string_def toString_def slice_0_neg_3 n_def)
  also have "\<dots> = digits (n div 10 div 10 div 10)"
    using n by (simp add: butlast_digits)
  also have "n div 10 div 10 div 10 = n div 1000"
    by (simp add: div_mult2_eq [symmetric])
  also have "n div 1000 = nat (now div 1000)"
    using assms by (simp add: n_def nat_div_distrib)
  finally show ?thesis .
qed

text \<open>
  From one second after the epoch on, the clock at second resolution is the reading in
  milliseconds divided by 1000.
\<close>

lemma currentTime_seconds: "1000 \<le> now \<Longrightarrow> currentTime now = Some (now div 1000)"
  by (simp add: currentTime_def time_string_seconds parseInt_digits)

lemma toString_no_colon: "CHR '':'' \<notin> set (toString i)"
  using digits_plain[of "CHR '':''"] by (auto simp: toString_def)

lemma time_string_no_colon: "CHR '':'' \<notin> set (time_string now)"
  using toString_no_colon[of now] in_set_takeD
  by (fastforce simp: time_string_def slice_0_neg_def)

lemma split_colon_not_Nil: "split_colon s \<noteq> []"
  by (induction s) (auto split: list.splits)

lemma split_colon_segment:
  "CHR '':'' \<notin> set a \<Longrightarrow> split_colon (a @ CHR '':'' # rest) = a # split_colon rest"
  by (induction a) (auto split: list.splits)

lemma messageTime_of_challenge:
  assumes "CHR '':'' \<notin> set address" and "CHR '':'' \<notin> set ts"
  shows "messageTime (address @ '':'' @ ts @ '':starRegistry'') = parseInt ts"
proof -
  have "split_colon (address @ '':'' @ ts @ '':starRegistry'')
          = address # ts # split_colon ''starRegistry''"
    using assms by (simp add: split_colon_segment)
  then show ?thesis
    using split_colon_not_Nil[of "''starRegistry''"] by (simp add: messageTime_def Let_def)
qed

lemmas parse_defs = messageTime_def Let_def parseInt_def parseInt_unsigned_def parseInt_radix_def
  is_digit_def digit_value_def number_of_digits_def is_white_space_def

lemma messageTime_examples:
  "messageTime ''addr'' = None"
  "messageTime ''addr:0:starRegistry'' = Some 0"
  "messageTime ''addr:1699999699:starRegistry'' = Some 1699999699"
  "messageTime ''addr:1699999700:starRegistry'' = Some 1699999700"
  by (simp_all add: parse_defs)

lemma addBlock_not_Error: "snd (addBlock H now self blk) \<noteq> Rejected (Error msg)"
  by (auto simp: addBlock_def pushBlock_def Let_def split: sum.splits option.splits if_splits)

section \<open>Claims about the challenge and the submission\<close>

text \<open>
  C7.  The claim: \<open>submitStar\<close> fails with the expired-challenge error if and only if
  \<open>current_time - 300 > embedded_timestamp\<close>.

  As stated it fails for the timestamp 0: line 145 rejects a timestamp that is \<open>NaN\<close> or
  zero as an invalid message format before the clock is read, although the timestamp is
  more than 300 seconds in the past.
\<close>

theorem submitStar_zero_timestamp_is_invalid_format:
  "messageTime ''addr:0:starRegistry'' = Some 0
   \<and> currentTime 1700000000123 = Some 1700000000
   \<and> (0::int) < 1700000000 - 300
   \<and> snd (submitStar concat_digest plain_encode example_verify 1700000000123 1700000000456 store0
             ''addr'' ''addr:0:starRegistry'' ''valid'' (JStr ''star''))
        = Rejected (Error ''Invalid message format'')
   \<and> snd (submitStar concat_digest plain_encode example_verify 1700000000123 1700000000456 store0
             ''addr'' ''addr:0:starRegistry'' ''valid'' (JStr ''star''))
        \<noteq> Rejected (Error ''Message is old. Request new message and resubmit the request'')"
  by (simp add: messageTime_examples currentTime_seconds submitStar_def falsy_def)

text \<open>
  C7, amended.  For every message whose second segment parses to an integer other than
  zero, \<open>submitStar\<close> fails with the expired-challenge error if and only if the
  comparison of line 151, \<open>current_time - 300 > embedded_timestamp\<close>, holds; from one
  second after the epoch on, \<open>current_time\<close> is the clock reading divided by 1000.  So a
  timestamp exactly 300 seconds in the past is not expired, and one 301 seconds in the
  past is.  Nothing that comes later (the verifier, \<open>_addBlock\<close>) produces that error.
\<close>

theorem submitStar_expired_iff:
  assumes "messageTime message = Some ts" and "ts \<noteq> 0"
  shows "((snd (submitStar H encode verify now now' self address message signature star)
            = Rejected (Error ''Message is old. Request new message and resubmit the request''))
          = js_greater (js_minus (currentTime now) (5 * 60)) (Some ts))
       \<and> (1000 \<le> now \<longrightarrow>
           (snd (submitStar H encode verify now now' self address message signature star)
              = Rejected (Error ''Message is old. Request new message and resubmit the request''))
           = (ts < now div 1000 - 300))"
proof -
  have iff: "(snd (submitStar H encode verify now now' self address message signature star)
            = Rejected (Error ''Message is old. Request new message and resubmit the request''))
          = js_greater (js_minus (currentTime now) (5 * 60)) (Some ts)"
    using assms addBlock_not_Error[of H now' self]
    by (auto simp: submitStar_def falsy_def split: sum.splits)
  moreover have "js_greater (js_minus (currentTime now) (5 * 60)) (Some ts) = (ts < now div 1000 - 300)"
    if "1000 \<le> now"
    using that by (simp add: currentTime_seconds js_greater_def js_minus_def)
  ultimately show ?thesis by simp
qed

theorem submitStar_expired_iff_witness:
  "messageTime ''addr:1699999700:starRegistry'' = Some 1699999700
   \<and> messageTime ''addr:1699999699:starRegistry'' = Some 1699999699
   \<and> (1000::int) \<le> 1700000000123
   \<and> snd (submitStar concat_digest plain_encode example_verify 1700000000123 1700000000456 store0
             ''addr'' ''addr:1699999700:starRegistry'' ''valid'' (JStr ''star''))
        \<noteq> Rejected (Error ''Message is old. Request new message and resubmit the request'')
   \<and> snd (submitStar concat_digest plain_encode example_verify 1700000000123 1700000000456 store0
             ''addr'' ''addr:1699999699:starRegistry'' ''valid'' (JStr ''star''))
        = Rejected (Error ''Message is old. Request new message and resubmit the request'')"
proof -
  have nz: "(1699999700::int) \<noteq> 0" "(1699999699::int) \<noteq> 0" by simp_all
  have late: "(1000::int) \<le> 1700000000123" by simp
  note at_300 = submitStar_expired_iff[OF messageTime_examples(4) nz(1), of concat_digest
    plain_encode example_verify 1700000000123 1700000000456 store0 "''addr''" "''valid''"
    "JStr ''star''", THEN conjunct2, rule_format, OF late]
  note at_301 = submitStar_expired_iff[OF messageTime_examples(3) nz(2), of concat_digest
    plain_encode example_verify 1700000000123 1700000000456 store0 "''addr''" "''valid''"
    "JStr ''star''", THEN conjunct2, rule_format, OF late]
  from at_300 at_301 show ?thesis by (simp add: messageTime_examples)
qed

text \<open>
  C8.  A call of \<open>submitStar\<close> that fails the format check, the expiry check or the
  signature check (the verifier returning false) rejects with the error of that check and
  returns the store as it was.  Moreover, whenever the promise is rejected with an
  \<open>Error\<close> of \<open>submitStar\<close> itself, the store is unchanged.
\<close>

theorem submitStar_failed_check_leaves_store:
  "(falsy (messageTime message) \<longrightarrow>
      submitStar H encode verify now now' self address message signature star
        = (self, Rejected (Error ''Invalid message format'')))
   \<and> (\<not> falsy (messageTime message)
       \<and> js_greater (js_minus (currentTime now) 300) (messageTime message) \<longrightarrow>
      submitStar H encode verify now now' self address message signature star
        = (self, Rejected (Error ''Message is old. Request new message and resubmit the request'')))
   \<and> (\<not> falsy (messageTime message)
       \<and> \<not> js_greater (js_minus (currentTime now) 300) (messageTime message)
       \<and> verify message address signature = Inr False \<longrightarrow>
      submitStar H encode verify now now' self address message signature star
        = (self, Rejected (Error ''Message verification failed'')))
   \<and> ((\<exists>msg. snd (submitStar H encode verify now now' self address message signature star)
               = Rejected (Error msg)) \<longrightarrow>
      fst (submitStar H encode verify now now' self address message signature star) = self)"
  by (auto simp: submitStar_def addBlock_def split: sum.splits option.splits if_splits)

theorem submitStar_failed_check_leaves_store_witness:
  "falsy (messageTime ''addr'')
   \<and> submitStar concat_digest plain_encode example_verify 1700000000123 1700000000456 store0
        ''addr'' ''addr'' ''valid'' (JStr ''star'')
       = (store0, Rejected (Error ''Invalid message format''))
   \<and> js_greater (js_minus (currentTime 1700000000123) 300) (messageTime ''addr:1699999699:starRegistry'')
   \<and> submitStar concat_digest plain_encode example_verify 1700000000123 1700000000456 store0
        ''addr'' ''addr:1699999699:starRegistry'' ''valid'' (JStr ''star'')
       = (store0, Rejected (Error ''Message is old. Request new message and resubmit the request''))
   \<and> example_verify ''addr:1699999700:starRegistry'' ''addr'' ''forged'' = Inr False
   \<and> submitStar concat_digest plain_encode example_verify 1700000000123 1700000000456 store0
        ''addr'' ''addr:1699999700:starRegistry'' ''forged'' (JStr ''star'')
       = (store0, Rejected (Error ''Message verification failed''))
   \<and> chainHeight (fst (submitStar concat_digest plain_encode example_verify 1700000000123
        1700000000456 store0 ''addr'' ''addr:1699999700:starRegistry'' ''forged'' (JStr ''star''))) = 0"
proof -
  have cur: "currentTime 1700000000123 = Some 1700000000"
    by (simp add: currentTime_seconds)
  have a: "falsy (messageTime ''addr'')"
    by (simp add: messageTime_examples falsy_def)
  have b: "\<not> falsy (messageTime ''addr:1699999699:starRegistry'')
         \<and> js_greater (js_minus (currentTime 1700000000123) 300) (messageTime ''addr:1699999699:starRegistry'')"
    by (simp add: messageTime_examples cur falsy_def js_greater_def js_minus_def)
  have c: "\<not> falsy (messageTime ''addr:1699999700:starRegistry'')
         \<and> \<not> js_greater (js_minus (currentTime 1700000000123) 300) (messageTime ''addr:1699999700:starRegistry'')
         \<and> example_verify ''addr:1699999700:starRegistry'' ''addr'' ''forged'' = Inr False"
    by (simp add: messageTime_examples cur falsy_def js_greater_def js_minus_def example_verify_def)
  have h: "chainHeight store0 = 0" by (simp add: store0_value)
  from a b c h
    submitStar_failed_check_leaves_store[of "''addr''" concat_digest plain_encode example_verify
      1700000000123 1700000000456 store0 "''addr''" "''valid''" "JStr ''star''"]
    submitStar_failed_check_leaves_store[of "''addr:1699999699:starRegistry''" concat_digest
      plain_encode example_verify 1700000000123 1700000000456 store0 "''addr''" "''valid''" "JStr ''star''"]
    submitStar_failed_check_leaves_store[of "''addr:1699999700:starRegistry''" concat_digest
      plain_encode example_verify 1700000000123 1700000000456 store0 "''addr''" "''forged''" "JStr ''star''"]
  show ?thesis by simp
qed

text \<open>
  C10.  For an address without a colon, the timestamp that \<open>submitStar\<close> extracts from
  the message issued by \<open>requestMessageOwnershipVerification\<close> at clock reading \<open>now\<close> is
  the clock at second resolution of that reading, which from one second after the epoch on
  is \<open>now div 1000\<close>.
\<close>

theorem challenge_round_trip:
  assumes "CHR '':'' \<notin> set address"
  shows "\<exists>message. requestMessageOwnershipVerification now address = Resolved message
           \<and> messageTime message = currentTime now
           \<and> (1000 \<le> now \<longrightarrow> messageTime message = Some (now div 1000))"
  using messageTime_of_challenge[OF assms time_string_no_colon, of now] currentTime_seconds[of now]
  by (simp add: requestMessageOwnershipVerification_def currentTime_def)

theorem challenge_round_trip_witness:
  "CHR '':'' \<notin> set ''1BoatSLRHtKNngkdXEeobR76b53LETtpyT''
   \<and> requestMessageOwnershipVerification 1700000000123 ''1BoatSLRHtKNngkdXEeobR76b53LETtpyT''
       = Resolved ''1BoatSLRHtKNngkdXEeobR76b53LETtpyT:1700000000:starRegistry''
   \<and> messageTime ''1BoatSLRHtKNngkdXEeobR76b53LETtpyT:1700000000:starRegistry'' = Some 1700000000"
proof -
  have nc: "CHR '':'' \<notin> set ''1BoatSLRHtKNngkdXEeobR76b53LETtpyT''" by simp
  have ts: "time_string 1700000000123 = ''1700000000''"
    by (simp add: time_string_def slice_0_neg_def toString_def digits.simps digit_char_def)
  from challenge_round_trip[OF nc, of 1700000000123] nc ts
  show ?thesis by (auto simp: requestMessageOwnershipVerification_def)
qed

text \<open>With a colon in the address the second segment is a part of the address.\<close>

lemma challenge_address_with_colon:
  "requestMessageOwnershipVerification 1700000000123 ''a:7''
       = Resolved ''a:7:1700000000:starRegistry''
   \<and> messageTime ''a:7:1700000000:starRegistry'' = Some 7"
  by (simp add: requestMessageOwnershipVerification_def parse_defs
        time_string_def slice_0_neg_def toString_def digits.simps digit_char_def)

section \<open>Claim about the ownership query\<close>

lemma destructure_owner_owned:
  "(destructure_owner data = Inr (JStr address)) = owned_by address data"
  by (auto simp: destructure_owner_def owned_by_def split: jsval.splits option.splits)

lemma stars_loop_collects:
  "stars_loop decode address blocks stars = stars @ get_all_owned_by decode address blocks"
proof (induction blocks arbitrary: stars)
  case Nil
  then show ?case by (simp add: get_all_owned_by_def map_filter_simps)
next
  case (Cons blk rest)
  show ?case
  proof (cases "getBData decode blk")
    case (Inl e)
    then show ?thesis
      using Cons.IH by (simp add: get_all_owned_by_def map_filter_simps owned_payload_def)
  next
    case (Inr data)
    show ?thesis
    proof (cases "destructure_owner data")
      case (Inl e)
      then have "\<not> owned_by address data"
        by (simp flip: destructure_owner_owned)
      with Inl Inr show ?thesis
        using Cons.IH by (simp add: get_all_owned_by_def map_filter_simps owned_payload_def)
    next
      case owner: (Inr owner)
      then have "owned_by address data = (owner = JStr address)"
        by (simp flip: destructure_owner_owned)
      with owner Inr show ?thesis
        using Cons.IH by (simp add: get_all_owned_by_def map_filter_simps owned_payload_def)
    qed
  qed
qed

text \<open>
  C9.  For every store, decoder and address, \<open>getStarsByWalletAddress\<close> resolves, and
  the list it resolves with is the list \<open>get_all_owned_by\<close> of the specification: the
  decoded payloads, in chain order, of the blocks whose payload decodes to an object with
  an \<open>owner\<close> property equal to the address.  A block whose payload does not decode, or
  decodes to \<open>null\<close>, or has no such owner, contributes nothing, and no error surfaces.
\<close>

theorem getStarsByWalletAddress_is_get_all_owned_by:
  "getStarsByWalletAddress decode self address
     = Resolved (get_all_owned_by decode address (chain self))"
  by (simp add: getStarsByWalletAddress_def stars_loop_collects)

end
